theory Spec2Isabelle
  imports Complex_Main
begin

section \<open>The simulation engine (SimEngine\_v4.py): data model\<close>

text \<open>
  The program computes with Python floats and numpy arrays of floats. Numbers are modelled
  as \<^typ>\<open>real\<close>: every statement below is about exact arithmetic, rounding is not
  modelled.

  A label is what the program uses as a dictionary key and as a pandas index entry: the
  sector names read from the matrix file are strings, and the driver fills the unused
  shock slots with the integer \<open>0\<close> (\<open>sector_2, shock_val_2, ... = 0, 0, 0, 0\<close>).
\<close>

datatype label = Name string | Num int

datatype error = TypeError | ValueError | IndexError | AttributeError

text \<open>A forcing entry \<open>(t0, t1, val)\<close>: start, end, magnitude.\<close>

type_synonym triple = "real \<times> real \<times> real"

text \<open>
  A Python \<open>dict\<close> is an association list in insertion order with distinct keys.
  \<open>d[k] = v\<close> replaces the value of an existing key in place and appends a new key.
\<close>

type_synonym 'v dict = "(label \<times> 'v) list"

fun dict_set :: "'v dict \<Rightarrow> label \<Rightarrow> 'v \<Rightarrow> 'v dict" where
  "dict_set [] k v = [(k, v)]"
| "dict_set ((k', v') # d) k v =
     (if k' = k then (k, v) # d else (k', v') # dict_set d k v)"

definition dict_get :: "'v dict \<Rightarrow> label \<Rightarrow> 'v option" where
  "dict_get d k = map_of d k"

definition keys :: "'v dict \<Rightarrow> label list" where
  "keys d = map fst d"

text \<open>
  A two-dimensional numpy array is the list of its rows. \<open>df_A\<close> is a pandas DataFrame:
  row labels, column labels and the array of values.
\<close>

type_synonym vec = "real list"
type_synonym mat = "real list list"

record dataframe =
  df_index :: "label list"
  df_columns :: "label list"
  df_values :: mat

definition is_array :: "nat \<Rightarrow> nat \<Rightarrow> mat \<Rightarrow> bool" where
  "is_array r c M = (length M = r \<and> list_all (\<lambda>row. length row = c) M)"

definition wf_dataframe :: "dataframe \<Rightarrow> bool" where
  "wf_dataframe df =
     is_array (length (df_index df)) (length (df_columns df)) (df_values df)"

text \<open>\<open>df.T.values\<close>: entry \<open>(j, i)\<close> of the result is entry \<open>(i, j)\<close> of the values.\<close>

definition transpose_values :: "dataframe \<Rightarrow> mat" where
  "transpose_values df =
     map (\<lambda>j. map (\<lambda>row. row ! j) (df_values df)) [0..<length (df_columns df)]"

text \<open>\<open>np.dot(M, v)\<close> for a matrix and a vector; numpy raises when the shapes do not align.\<close>

definition dot_mv :: "mat \<Rightarrow> vec \<Rightarrow> vec" where
  "dot_mv M v = map (\<lambda>row. sum_list (map2 (*) row v)) M"

text \<open>\<open>Index.unique()\<close> keeps the first occurrence of every label, in order.\<close>

fun unique :: "label list \<Rightarrow> label list" where
  "unique [] = []"
| "unique (x # xs) = x # unique (filter (\<lambda>y. y \<noteq> x) xs)"

text \<open>The position of a label in a list of labels (its first occurrence).\<close>

fun index_of :: "label list \<Rightarrow> label \<Rightarrow> nat" where
  "index_of [] k = 0"
| "index_of (x # xs) k = (if x = k then 0 else Suc (index_of xs k))"

section \<open>LeonTradeModel\<close>

text \<open>
  The \<open>demand\<close> argument is the string \<open>'unit'\<close> (the default) or a vector. The attribute
  \<open>self.A\<close> is assigned only in the two branches of the \<open>if\<close>/\<open>elif\<close> on \<open>type\<close>: it is
  an option, \<open>None\<close> when the attribute was never set.
\<close>

datatype demand = DStr string | DVec vec

record LeonTradeModel =
  self_df_A :: dataframe
  self_sector_indices :: "label list"
  self_sectors :: "label list"
  self_A :: "mat option"
  self_d_base :: vec
  self_x_base :: vec
  self_x_out :: vec

definition LeonTradeModel_init ::
  "dataframe \<Rightarrow> demand \<Rightarrow> string \<Rightarrow> error + LeonTradeModel" where
  "LeonTradeModel_init df_A demand type =
     (let A = (if type = ''Upstream'' then Some (df_values df_A)
               else if type = ''Downstream'' then Some (transpose_values df_A)
               else None)
      in case (case demand of
                 DStr s \<Rightarrow> if s = ''unit''
                            then Inr (replicate (length (df_values df_A)) 1)
                            else Inl TypeError
               | DVec d \<Rightarrow> Inr d) of
           Inl e \<Rightarrow> Inl e
         | Inr d_base \<Rightarrow>
             if length (df_columns df_A) \<noteq> length d_base then Inl ValueError
             else Inr \<lparr> self_df_A = df_A,
                        self_sector_indices = df_index df_A,
                        self_sectors = unique (df_index df_A),
                        self_A = A,
                        self_d_base = d_base,
                        self_x_base = dot_mv (df_values df_A) d_base,
                        self_x_out = dot_mv (df_values df_A) d_base \<rparr>)"

text \<open>Reading \<open>network_model.A\<close>: an attribute that was never assigned raises.\<close>

definition read_A :: "LeonTradeModel \<Rightarrow> error + mat" where
  "read_A self = (case self_A self of None \<Rightarrow> Inl AttributeError | Some a \<Rightarrow> Inr a)"

text \<open>
  \<open>shock_impulse\<close>: every sector gets the general entry with its first two components
  divided by 12, then every key of \<open>sectors_n_shocks\<close> is written over it. Iterating
  \<open>None\<close> (the default of the parameter) raises \<open>TypeError\<close>, after the first loop ran.
\<close>

definition general_entry :: "triple \<Rightarrow> triple" where
  "general_entry g = (fst g / 12, fst (snd g) / 12, snd (snd g))"

definition shock_impulse ::
  "LeonTradeModel \<Rightarrow> triple dict option \<Rightarrow> triple \<Rightarrow> error + triple dict" where
  "shock_impulse self sectors_n_shocks general_shock =
     (let shock_vec = fold (\<lambda>sector d. dict_set d sector (general_entry general_shock))
                        (self_sectors self) []
      in case sectors_n_shocks of
           None \<Rightarrow> Inl TypeError
         | Some ov \<Rightarrow> Inr (fold (\<lambda>(sector, v) d. dict_set d sector v) ov shock_vec))"


section \<open>The driver: from the widgets to the arguments of shock\_impulse\<close>

text \<open>
  With the economy-wide checkbox ticked the driver passes
  \<open>[start_general, end_general, general_shock/100]\<close>, months and a percentage as the
  sliders return them; otherwise \<open>[0, 0, 0]\<close>. (The branch for a spread stimulus assigns
  the same variable again, by the same expression, from the sliders of the stimulus.)
\<close>

definition general_shock_list :: "bool \<Rightarrow> real \<Rightarrow> real \<Rightarrow> real \<Rightarrow> triple" where
  "general_shock_list checked start_general end_general general_shock =
     (if checked then (start_general, end_general, general_shock / 100) else (0, 0, 0))"

text \<open>
  A slot is \<open>(sector_i, shock_val_i, start_sector_i, end_sector_i)\<close>; a slot whose
  checkbox is not ticked keeps \<open>0, 0, 0, 0\<close>. The dictionary display of the driver
  inserts the five slots in order, a repeated key keeping its place and taking the
  later value.
\<close>

type_synonym slot = "label \<times> real \<times> real \<times> real"

definition unused_slot :: slot where
  "unused_slot = (Num 0, 0, 0, 0)"

definition slot_entry :: "slot \<Rightarrow> label \<times> triple" where
  "slot_entry s =
     (case s of (sector, shock_val, start_sector, end_sector) \<Rightarrow>
        (sector, (start_sector / 12, end_sector / 12, shock_val / 100)))"

definition sectors_n_shocks :: "slot \<Rightarrow> slot \<Rightarrow> slot \<Rightarrow> slot \<Rightarrow> slot \<Rightarrow> triple dict" where
  "sectors_n_shocks s1 s2 s3 s4 s5 =
     fold (\<lambda>s d. dict_set d (fst (slot_entry s)) (snd (slot_entry s))) [s1, s2, s3, s4, s5] []"

section \<open>The forcing vector and the right-hand side of the dynamics\<close>

text \<open>
  \<open>pd.Series(data = np.zeros(len(A)), index = sectors)\<close> is a pair of the index and the
  values; pandas raises \<open>ValueError\<close> when the two lengths differ.

  \<open>shock_vec[key] = value\<close> on a Series: a key of the index is written at every position
  carrying it. For a key that is not in the index, pandas (before version 3) writes an
  integer key by position when the index is not an integer index, negative positions
  counting from the end and a position out of range raising \<open>IndexError\<close>; any other
  absent key enlarges the Series by one entry.
\<close>

type_synonym series = "label list \<times> vec"

definition integer_index :: "label list \<Rightarrow> bool" where
  "integer_index idx =
     (idx \<noteq> [] \<and> list_all (\<lambda>l. case l of Num i \<Rightarrow> True | Name s \<Rightarrow> False) idx)"

definition series_setitem :: "series \<Rightarrow> label \<Rightarrow> real \<Rightarrow> error + series" where
  "series_setitem s key val =
     (case s of (idx, vals) \<Rightarrow>
        if key \<in> set idx
        then Inr (idx, map2 (\<lambda>l x. if l = key then val else x) idx vals)
        else (case key of
                Name nm \<Rightarrow> Inr (idx @ [key], vals @ [val])
              | Num i \<Rightarrow>
                  if integer_index idx then Inr (idx @ [key], vals @ [val])
                  else if - int (length vals) \<le> i \<and> i < int (length vals)
                  then Inr (idx, vals[nat (i mod int (length vals)) := val])
                  else Inl IndexError))"

text \<open>
  The loop over \<open>external_shock_vec_dict.items()\<close>: an entry \<open>(t0, t1, val)\<close> is written
  when \<open>(t >= t0) & (t <= t1)\<close>.
\<close>

fun forcing_loop :: "real \<Rightarrow> triple dict \<Rightarrow> series \<Rightarrow> error + series" where
  "forcing_loop t [] s = Inr s"
| "forcing_loop t ((sector_idx, shock_attrs) # d) s =
     (if fst shock_attrs \<le> t \<and> t \<le> fst (snd shock_attrs)
      then (case series_setitem s sector_idx (snd (snd shock_attrs)) of
              Inl e \<Rightarrow> Inl e
            | Inr s' \<Rightarrow> forcing_loop t d s')
      else forcing_loop t d s)"

definition forcing_series :: "real \<Rightarrow> mat \<Rightarrow> label list \<Rightarrow> triple dict \<Rightarrow> error + series" where
  "forcing_series t A sectors d =
     (if length sectors \<noteq> length A then Inl ValueError
      else forcing_loop t d (sectors, replicate (length A) 0))"

text \<open>\<open>np.eye(n)\<close>, the difference of two arrays of one shape, the sum of two vectors.\<close>

definition eye :: "nat \<Rightarrow> mat" where
  "eye n = map (\<lambda>i. map (\<lambda>j. if i = j then 1 else 0) [0..<n]) [0..<n]"

definition mat_sub :: "mat \<Rightarrow> mat \<Rightarrow> mat" where
  "mat_sub M N = map2 (map2 (-)) M N"

definition vec_add :: "vec \<Rightarrow> vec \<Rightarrow> vec" where
  "vec_add u v = map2 (+) u v"

text \<open>
  Both callbacks first record \<open>t\<close> in the function attribute
  \<open>economic_dynamics_ode.time_vec\<close> (created by the \<open>except\<close> branch on the first call).
  The attribute is the state threaded through the calls; nothing reads it.
\<close>

definition log_time :: "real list option \<Rightarrow> real \<Rightarrow> real list option" where
  "log_time time_vec t =
     (case time_vec of None \<Rightarrow> Some [t] | Some ts \<Rightarrow> Some (ts @ [t]))"

text \<open>
  The value returned is \<open>np.dot(A - np.eye(A.shape[0]), y) + shock_vec\<close>, with
  \<open>+ recovery_vec\<close> after it in the second callback: \<open>rhs\<close> is that expression, for the
  list of the forcing vectors added. The model raises
  \<open>ValueError\<close> unless \<open>A\<close> is square, \<open>y\<close> has its dimension and the Series kept its
  length; numpy broadcasts a one-row or one-column \<open>A\<close> against the identity, a case the
  square interdependency matrix never presents and the model does not follow.
\<close>

definition rhs :: "mat \<Rightarrow> vec \<Rightarrow> vec list \<Rightarrow> error + vec" where
  "rhs A y forcings =
     (if \<not> is_array (length A) (length A) A \<or> length y \<noteq> length A
         \<or> \<not> list_all (\<lambda>f. length f = length A) forcings
      then Inl ValueError
      else Inr (fold (\<lambda>f acc. vec_add acc f) forcings
                  (dot_mv (mat_sub A (eye (length A))) y)))"

definition economic_dynamics_ode ::
  "real list option \<Rightarrow> vec \<Rightarrow> real \<Rightarrow> mat \<Rightarrow> label list \<Rightarrow> triple dict
     \<Rightarrow> real list option \<times> (error + vec)" where
  "economic_dynamics_ode time_vec y t A sectors external_shock_vec_dict =
     (log_time time_vec t,
      case forcing_series t A sectors external_shock_vec_dict of
        Inl e \<Rightarrow> Inl e
      | Inr shock_vec \<Rightarrow> rhs A y [snd shock_vec])"


text \<open>
  The forcing function as the specification words it (section 4.2): one entry per
  sector, the magnitude of the sector's entry while \<open>start \<le> t \<le> end\<close>, and \<open>0\<close>
  otherwise, also for a sector without an entry.
\<close>

definition evaluate :: "triple dict \<Rightarrow> label list \<Rightarrow> real \<Rightarrow> vec" where
  "evaluate spec sectors t =
     map (\<lambda>s. case dict_get spec s of
                 None \<Rightarrow> 0
               | Some a \<Rightarrow> if fst a \<le> t \<and> t \<le> fst (snd a) then snd (snd a) else 0)
         sectors"

section \<open>Total output loss\<close>

text \<open>
  \<open>scipy.integrate.simps\<close> is a library routine, a parameter \<open>simps\<close> of the model: a
  function of the samples and the grid. The library raises \<open>ValueError\<close> when the two
  lengths differ.
\<close>

definition simps_call :: "(vec \<Rightarrow> vec \<Rightarrow> real) \<Rightarrow> vec \<Rightarrow> vec \<Rightarrow> error + real" where
  "simps_call simps y x = (if length x \<noteq> length y then Inl ValueError else Inr (simps y x))"

text \<open>\<open>sol[:, n]\<close> and \<open>sol.shape[1]\<close> of an array that has at least one row.\<close>

definition column :: "mat \<Rightarrow> nat \<Rightarrow> vec" where
  "column sol n = map (\<lambda>row. row ! n) sol"

definition shape1 :: "mat \<Rightarrow> nat" where
  "shape1 sol = (case sol of [] \<Rightarrow> 0 | row # rest \<Rightarrow> length row)"

datatype loss = PerSector "(label \<times> real) list" | Scalar real

fun by_sector_loop ::
  "(vec \<Rightarrow> vec \<Rightarrow> real) \<Rightarrow> mat \<Rightarrow> vec \<Rightarrow> label list \<Rightarrow> label list \<Rightarrow> (label \<times> real) list
     \<Rightarrow> error + (label \<times> real) list" where
  "by_sector_loop simps sol time_vec sectors [] tot_out_loss = Inr tot_out_loss"
| "by_sector_loop simps sol time_vec sectors (n # ns) tot_out_loss =
     (case simps_call simps (column sol (index_of sectors n)) time_vec of
        Inl e \<Rightarrow> Inl e
      | Inr v \<Rightarrow>
          by_sector_loop simps sol time_vec sectors ns
            (map (\<lambda>(l, x). if l = n then (l, v) else (l, x)) tot_out_loss))"

fun scalar_loop ::
  "(vec \<Rightarrow> vec \<Rightarrow> real) \<Rightarrow> mat \<Rightarrow> vec \<Rightarrow> nat list \<Rightarrow> real \<Rightarrow> error + real" where
  "scalar_loop simps sol time_vec [] tot_out_loss = Inr tot_out_loss"
| "scalar_loop simps sol time_vec (n # ns) tot_out_loss =
     (case simps_call simps (column sol n) time_vec of
        Inl e \<Rightarrow> Inl e
      | Inr v \<Rightarrow> scalar_loop simps sol time_vec ns (tot_out_loss + v))"

text \<open>
  \<open>total_out_loss\<close>. With \<open>by_sector\<close> the solution becomes a DataFrame whose columns are
  the sectors (\<open>ValueError\<close> when their number is not \<open>sol.shape[1]\<close>) and every sector's
  column is integrated; iterating the default \<open>sectors = None\<close> raises \<open>TypeError\<close>. A
  repeated column label makes \<open>_sol_df.loc[:, n]\<close> a frame instead of a column, which
  the model reports as the \<open>ValueError\<close> that \<open>simps\<close> raises on it. Without
  \<open>by_sector\<close> the columns \<open>0, ..., sol.shape[1] - 1\<close> are integrated and added up.
  An array without rows has no column count in this representation; integrating an
  empty sample raises \<open>IndexError\<close>.
\<close>

definition total_out_loss ::
  "(vec \<Rightarrow> vec \<Rightarrow> real) \<Rightarrow> mat \<Rightarrow> vec \<Rightarrow> bool \<Rightarrow> label list option \<Rightarrow> error + loss" where
  "total_out_loss simps sol time_vec by_sector sectors =
     (if sol = [] then Inl IndexError
      else if by_sector then
        (case sectors of
           None \<Rightarrow> Inl TypeError
         | Some secs \<Rightarrow>
             if length secs \<noteq> shape1 sol \<or> \<not> distinct secs then Inl ValueError
             else (case by_sector_loop simps sol time_vec secs secs
                          (map (\<lambda>l. (l, 0)) secs) of
                     Inl e \<Rightarrow> Inl e
                   | Inr tot \<Rightarrow> Inr (PerSector tot)))
      else (case scalar_loop simps sol time_vec [0..<shape1 sol] 0 of
              Inl e \<Rightarrow> Inl e
            | Inr tot \<Rightarrow> Inr (Scalar tot)))"

section \<open>Auxiliary definitions\<close>

text \<open>
  The effect of the forcing loop on one position of the Series: the entry of the label,
  when there is one and it is active at \<open>t\<close>, replaces the value.
\<close>

definition overlay :: "real \<Rightarrow> triple dict \<Rightarrow> label \<Rightarrow> real \<Rightarrow> real" where
  "overlay t d s x =
     (case dict_get d s of
        None \<Rightarrow> x
      | Some a \<Rightarrow> if fst a \<le> t \<and> t \<le> fst (snd a) then snd (snd a) else x)"

text \<open>
  A forcing dictionary fits the Series at time \<open>t\<close> when every entry is keyed by a label
  of the index or is not active at \<open>t\<close>: no write then goes to a key outside the index.
  The entry \<open>0: (0, 0, 0)\<close> that the driver makes for its unused slots is active at
  \<open>t = 0\<close> only.
\<close>

definition known_or_idle :: "real \<Rightarrow> label list \<Rightarrow> triple dict \<Rightarrow> bool" where
  "known_or_idle t sectors d =
     list_all (\<lambda>(k, a). k \<in> set sectors \<or> \<not> (fst a \<le> t \<and> t \<le> fst (snd a))) d"

text \<open>
  What is assumed of the quadrature routine: on a fixed grid it is additive in the
  samples, as every rule that is a weighted sum of the samples is.
\<close>

definition additive_quadrature :: "(vec \<Rightarrow> vec \<Rightarrow> real) \<Rightarrow> vec \<Rightarrow> bool" where
  "additive_quadrature simps x =
     (\<forall>u v. length u = length x \<longrightarrow> length v = length x \<longrightarrow>
            simps (map2 (+) u v) x = simps u x + simps v x)"

text \<open>Simpson's rule on three samples, an instance of such a routine.\<close>

definition simpson3 :: "vec \<Rightarrow> vec \<Rightarrow> real" where
  "simpson3 y x = (x ! 2 - x ! 0) / 6 * (y ! 0 + 4 * y ! 1 + y ! 2)"

text \<open>
  A two-sector economy in which sector \<open>a\<close> depends on sector \<open>b\<close>, and the model the
  constructor builds from it for unit demand and downstream propagation.
\<close>

definition example_df :: dataframe where
  "example_df = \<lparr> df_index = [Name ''a'', Name ''b''],
                   df_columns = [Name ''a'', Name ''b''],
                   df_values = [[0, 1], [0, 0]] \<rparr>"

definition example_model :: LeonTradeModel where
  "example_model = \<lparr> self_df_A = example_df,
                      self_sector_indices = [Name ''a'', Name ''b''],
                      self_sectors = [Name ''a'', Name ''b''],
                      self_A = Some [[0, 0], [1, 0]],
                      self_d_base = [1, 1],
                      self_x_base = [1, 0],
                      self_x_out = [1, 0] \<rparr>"

section \<open>Facts about dictionaries\<close>

lemma dict_get_dict_set:
  "dict_get (dict_set d k v) k' = (if k' = k then Some v else dict_get d k')"
  by (induction d) (auto simp: dict_get_def)

lemma keys_dict_set:
  "set (keys (dict_set d k v)) = insert k (set (keys d))"
  by (induction d) (force simp: keys_def)+

lemma distinct_dict_set:
  "distinct (keys d) \<Longrightarrow> distinct (keys (dict_set d k v))"
proof (induction d)
  case Nil
  then show ?case by (simp add: keys_def)
next
  case (Cons p d)
  have "set (map fst (dict_set d k v)) = insert k (set (map fst d))"
    using keys_dict_set [of d k v] by (simp add: keys_def)
  with Cons show ?case
    by (cases p) (auto simp: keys_def)
qed

lemma example_model_init:
  "LeonTradeModel_init example_df (DStr ''unit'') ''Downstream'' = Inr example_model"
  by (simp add: LeonTradeModel_init_def example_df_def example_model_def
        transpose_values_def dot_mv_def)



lemma dict_get_fold_const:
  "dict_get (fold (\<lambda>s d. dict_set d s e) xs d0) k
     = (if k \<in> set xs then Some e else dict_get d0 k)"
  by (induction xs arbitrary: d0) (auto simp: dict_get_dict_set)

lemma keys_fold_const:
  "set (keys (fold (\<lambda>s d. dict_set d s e) xs d0)) = set xs \<union> set (keys d0)"
  by (induction xs arbitrary: d0) (auto simp: keys_dict_set)

lemma dict_get_fold_absent:
  "k \<notin> set (keys ov) \<Longrightarrow>
   dict_get (fold (\<lambda>(k, v) d. dict_set d k v) ov d0) k = dict_get d0 k"
  by (induction ov arbitrary: d0) (auto simp: keys_def dict_get_dict_set)

lemma dict_get_fold_present:
  "distinct (keys ov) \<Longrightarrow> (k, v) \<in> set ov \<Longrightarrow>
   dict_get (fold (\<lambda>(k, v) d. dict_set d k v) ov d0) k = Some v"
proof (induction ov arbitrary: d0)
  case Nil
  then show ?case by simp
next
  case (Cons p ov)
  show ?case
  proof (cases "p = (k, v)")
    case True
    with Cons.prems have "k \<notin> set (keys ov)" by (auto simp: keys_def)
    then show ?thesis
      by (simp add: True dict_get_fold_absent dict_get_dict_set)
  next
    case False
    with Cons.prems have "(k, v) \<in> set ov" "distinct (keys ov)"
      by (auto simp: keys_def)
    then show ?thesis
      using Cons.IH by simp
  qed
qed

lemma keys_Nil: "keys [] = []"
  by (simp add: keys_def)

lemma keys_Cons: "keys (p # d) = fst p # keys d"
  by (simp add: keys_def)

lemma keys_fold_pairs:
  "set (keys (fold (\<lambda>(k, v) d. dict_set d k v) ov d0)) = set (keys ov) \<union> set (keys d0)"
proof (induction ov arbitrary: d0)
  case Nil
  then show ?case by (simp add: keys_def)
next
  case (Cons p ov)
  obtain k v where p: "p = (k, v)" by (cases p)
  have "set (keys (fold (\<lambda>(k, v) d. dict_set d k v) (p # ov) d0))
          = set (keys ov) \<union> set (keys (dict_set d0 k v))"
    using Cons.IH [of "dict_set d0 k v"] by (simp add: p)
  also have "\<dots> = set (keys (p # ov)) \<union> set (keys d0)"
    by (simp add: keys_dict_set keys_Cons p)
  finally show ?case .
qed

section \<open>Facts about arrays\<close>

lemma sum_list_map2_times:
  assumes "length r = n" "length y = n"
  shows "sum_list (map2 (*) r y) = (\<Sum>j<n. r ! j * y ! j)"
proof -
  have "sum_list (map2 (*) r y) = (\<Sum>j = 0..<length (map2 (*) r y). map2 (*) r y ! j)"
    by (rule sum_list_sum_nth)
  also have "\<dots> = (\<Sum>j = 0..<n. r ! j * y ! j)"
    using assms by (intro sum.cong) simp_all
  finally show ?thesis by (simp add: atLeast0LessThan)
qed

lemma is_array_row: "is_array r c M \<Longrightarrow> i < r \<Longrightarrow> length (M ! i) = c"
  by (simp add: is_array_def list_all_length)

section \<open>Overrides that name no sector of the economy\<close>

text \<open>
  C4, as the code has it. \<open>shock_impulse\<close> does not look the names of the overrides up:
  for every dictionary of overrides it returns a dictionary whose keys are the sectors of
  the economy together with the keys of the overrides, every override stored as given,
  whether or not its key is a sector of the economy.
\<close>

theorem shock_impulse_accepts_any_names:
  assumes "distinct (keys ov)" "(k, v) \<in> set ov"
  shows "\<exists>spec. shock_impulse self (Some ov) general_shock = Inr spec
            \<and> set (keys spec) = set (self_sectors self) \<union> set (keys ov)
            \<and> dict_get spec k = Some v"
proof -
  let ?d0 = "fold (\<lambda>sector d. dict_set d sector (general_entry general_shock))
               (self_sectors self) []"
  let ?spec = "fold (\<lambda>(sector, v) d. dict_set d sector v) ov ?d0"
  have "shock_impulse self (Some ov) general_shock = Inr ?spec"
    by (simp add: shock_impulse_def)
  moreover have "set (keys ?spec) = set (self_sectors self) \<union> set (keys ov)"
    by (simp add: keys_fold_pairs keys_fold_const keys_Nil Un_commute)
  moreover have "dict_get ?spec k = Some v"
    by (rule dict_get_fold_present [OF assms])
  ultimately show ?thesis by blast
qed

theorem shock_impulse_accepts_any_names_witness:
  "shock_impulse example_model (Some [(Name ''c'', (0, 1, 1))]) (0, 0, 0)
     = Inr [(Name ''a'', (0, 0, 0)), (Name ''b'', (0, 0, 0)), (Name ''c'', (0, 1, 1))]
   \<and> dict_get [(Name ''a'', (0, 0, 0)), (Name ''b'', (0, 0, 0)), (Name ''c'', (0, 1, 1::real))]
        (Name ''c'') = Some (0, 1, 1::real)"
proof -
  have h1: "distinct (keys [(Name ''c'', (0, 1, 1::real))])" by (simp add: keys_def)
  have h2: "(Name ''c'', (0, 1, 1)) \<in> set [(Name ''c'', (0, 1, 1::real))]" by simp
  show ?thesis
    using shock_impulse_accepts_any_names [OF h1 h2, of example_model "(0, 0, 0)"]
    by (simp add: shock_impulse_def example_model_def general_entry_def dict_get_def)
qed

text \<open>
  The sentence of the specification fails here: \<open>c\<close> is no sector of the two-sector economy, and the call
  returns a dictionary that holds an entry for \<open>c\<close>.
\<close>

theorem unknown_sector_counterexample:
  "Name ''c'' \<notin> set (self_sectors example_model)
   \<and> shock_impulse example_model (Some [(Name ''c'', (0, 1, 1))]) (0, 0, 0)
       = Inr [(Name ''a'', (0, 0, 0)), (Name ''b'', (0, 0, 0)), (Name ''c'', (0, 1, 1))]"
  by (simp add: shock_impulse_def example_model_def general_entry_def)

section \<open>The targeted recovery\<close>





section \<open>Economy-wide and targeted magnitudes\<close>

lemma dict_get_sectors_n_shocks_first:
  assumes "sector_1 \<notin> {fst s2, fst s3, fst s4, fst s5}"
  shows "dict_get (sectors_n_shocks (sector_1, shock_val_1, start_sector_1, end_sector_1)
                     s2 s3 s4 s5) sector_1
           = Some (start_sector_1 / 12, end_sector_1 / 12, shock_val_1 / 100)"
  using assms
  by (simp add: sectors_n_shocks_def dict_get_dict_set slot_entry_def case_prod_unfold
        dict_get_def)

lemma fst_slot_entry: "fst (slot_entry s) = fst s"
  by (simp add: slot_entry_def case_prod_unfold)

lemma keys_fold_slots:
  "set (keys (fold (\<lambda>s d. dict_set d (fst (slot_entry s)) (snd (slot_entry s))) ss d0))
     = fst ` set ss \<union> set (keys d0)"
  by (induction ss arbitrary: d0) (auto simp: keys_dict_set fst_slot_entry)

lemma distinct_fold_slots:
  "distinct (keys d0) \<Longrightarrow>
   distinct (keys (fold (\<lambda>s d. dict_set d (fst (slot_entry s)) (snd (slot_entry s))) ss d0))"
  by (induction ss arbitrary: d0) (simp_all add: distinct_dict_set)

lemma keys_sectors_n_shocks:
  "set (keys (sectors_n_shocks s1 s2 s3 s4 s5)) = {fst s1, fst s2, fst s3, fst s4, fst s5}"
  unfolding sectors_n_shocks_def keys_fold_slots by (simp add: keys_Nil)

lemma distinct_sectors_n_shocks: "distinct (keys (sectors_n_shocks s1 s2 s3 s4 s5))"
  unfolding sectors_n_shocks_def by (rule distinct_fold_slots) (simp add: keys_Nil)

lemma dict_get_fold_pairs_Some:
  assumes "distinct (keys ov)" "dict_get ov k = Some v"
  shows "dict_get (fold (\<lambda>(k, v) d. dict_set d k v) ov d0) k = Some v"
proof -
  have "(k, v) \<in> set ov"
    using assms(2) by (simp add: dict_get_def map_of_SomeD)
  with assms(1) show ?thesis by (rule dict_get_fold_present)
qed

text \<open>
  C1, as the code has it. For one percentage \<open>m\<close>, an economy-wide shock stores
  \<open>(start_general/12, end_general/12, m/100)\<close> on every sector that no slot names, and a
  targeted shock in the first slot stores \<open>(start_sector_1/12, end_sector_1/12, m/100)\<close>
  on its sector: the division by 12 turns the months of both into years, and both
  magnitudes are \<open>m/100\<close>.
\<close>

theorem shock_magnitude_same_scale:
  assumes "sector \<in> set (self_sectors self)"
    and "sector \<notin> {sector_1, fst s2, fst s3, fst s4, fst s5}"
    and "sector_1 \<notin> {fst s2, fst s3, fst s4, fst s5}"
  shows "\<exists>spec. shock_impulse self
                  (Some (sectors_n_shocks (sector_1, m, start_sector_1, end_sector_1)
                           s2 s3 s4 s5))
                  (general_shock_list True start_general end_general m) = Inr spec
            \<and> dict_get spec sector = Some (start_general / 12, end_general / 12, m / 100)
            \<and> dict_get spec sector_1 = Some (start_sector_1 / 12, end_sector_1 / 12, m / 100)"
proof -
  let ?ov = "sectors_n_shocks (sector_1, m, start_sector_1, end_sector_1) s2 s3 s4 s5"
  let ?g = "general_shock_list True start_general end_general m"
  let ?d0 = "fold (\<lambda>sector d. dict_set d sector (general_entry ?g)) (self_sectors self) []"
  let ?spec = "fold (\<lambda>(sector, v) d. dict_set d sector v) ?ov ?d0"
  have ret: "shock_impulse self (Some ?ov) ?g = Inr ?spec"
    by (simp add: shock_impulse_def)
  have "sector \<notin> set (keys ?ov)"
    using assms(2) by (simp add: keys_sectors_n_shocks)
  then have "dict_get ?spec sector = dict_get ?d0 sector"
    by (rule dict_get_fold_absent)
  moreover have "dict_get ?d0 sector = Some (general_entry ?g)"
    using assms(1) by (simp add: dict_get_fold_const)
  moreover have "general_entry ?g = (start_general / 12, end_general / 12, m / 100)"
    by (simp add: general_entry_def general_shock_list_def)
  ultimately have wide: "dict_get ?spec sector
                        = Some (start_general / 12, end_general / 12, m / 100)"
    by simp
  have "dict_get ?ov sector_1 = Some (start_sector_1 / 12, end_sector_1 / 12, m / 100)"
    by (rule dict_get_sectors_n_shocks_first [OF assms(3)])
  then have target: "dict_get ?spec sector_1
                       = Some (start_sector_1 / 12, end_sector_1 / 12, m / 100)"
    by (rule dict_get_fold_pairs_Some [OF distinct_sectors_n_shocks])
  from ret wide target show ?thesis by blast
qed

theorem shock_magnitude_same_scale_witness:
  "shock_impulse example_model
     (Some (sectors_n_shocks (Name ''a'', 12, 0, 6) unused_slot unused_slot unused_slot
              unused_slot))
     (general_shock_list True 0 6 12)
     = Inr [(Name ''a'', (0, 1 / 2, 3 / 25)), (Name ''b'', (0, 1 / 2, 3 / 25)),
            (Num 0, (0, 0, 0))]
   \<and> dict_get [(Name ''a'', (0, 1 / 2, 3 / 25)), (Name ''b'', (0, 1 / 2, 3 / 25 :: real)),
               (Num 0, (0, 0, 0))] (Name ''b'')
       = Some (0 / 12 :: real, 6 / 12 :: real, 12 / 100 :: real)
   \<and> dict_get [(Name ''a'', (0, 1 / 2, 3 / 25)), (Name ''b'', (0, 1 / 2, 3 / 25 :: real)),
               (Num 0, (0, 0, 0))] (Name ''a'')
       = Some (0 / 12 :: real, 6 / 12 :: real, 12 / 100 :: real)"
proof -
  have h1: "Name ''b'' \<in> set (self_sectors example_model)"
    by (simp add: example_model_def)
  have h2: "Name ''b'' \<notin> {Name ''a'', fst unused_slot, fst unused_slot, fst unused_slot,
                            fst unused_slot}"
    by (simp add: unused_slot_def)
  have h3: "Name ''a'' \<notin> {fst unused_slot, fst unused_slot, fst unused_slot, fst unused_slot}"
    by (simp add: unused_slot_def)
  show ?thesis
    using shock_magnitude_same_scale [OF h1 h2 h3, of 12 0 6 0 6]
    by (simp add: shock_impulse_def sectors_n_shocks_def slot_entry_def unused_slot_def
          general_shock_list_def general_entry_def example_model_def dict_get_def)
qed

text \<open>
  The sentence of the specification fails here: for \<open>m = 12\<close> the magnitude stored on the sector \<open>b\<close>, which
  only the economy-wide shock reaches, is \<open>12/100\<close> and not \<open>12/100/12\<close>, the same as the
  magnitude stored on the targeted sector \<open>a\<close>, not a twelfth of it.
\<close>

theorem economy_wide_scaling_counterexample:
  "shock_impulse example_model
     (Some (sectors_n_shocks (Name ''a'', 12, 0, 6) unused_slot unused_slot unused_slot
              unused_slot))
     (general_shock_list True 0 6 12)
     = Inr [(Name ''a'', (0, 1 / 2, 3 / 25)), (Name ''b'', (0, 1 / 2, 3 / 25)),
            (Num 0, (0, 0, 0))]
   \<and> (3 / 25 :: real) = 12 / 100
   \<and> (3 / 25 :: real) \<noteq> 12 / 100 / 12
   \<and> (3 / 25 :: real) * 12 \<noteq> 3 / 25"
  by (simp add: shock_impulse_def sectors_n_shocks_def slot_entry_def unused_slot_def
        general_shock_list_def general_entry_def example_model_def)

section \<open>The baseline output\<close>

text \<open>
  C3, as the code has it. For every direction, the baseline output is the product of the
  matrix as given with the demand vector, entry by entry, whichever matrix the direction
  selects for \<open>A\<close>; the unit demand is the demand vector of ones.
\<close>

theorem baseline_matrix_as_given:
  assumes "wf_dataframe df_A" "length (df_columns df_A) = length d"
    and "i < length (df_index df_A)"
  shows "(\<exists>self. LeonTradeModel_init df_A (DVec d) type = Inr self
            \<and> self_A self = (if type = ''Upstream'' then Some (df_values df_A)
                              else if type = ''Downstream'' then Some (transpose_values df_A)
                              else None)
            \<and> self_x_base self = dot_mv (df_values df_A) d
            \<and> length (self_x_base self) = length (df_index df_A)
            \<and> self_x_base self ! i = (\<Sum>j<length d. df_values df_A ! i ! j * d ! j))
       \<and> LeonTradeModel_init df_A (DStr ''unit'') type
           = LeonTradeModel_init df_A (DVec (replicate (length (df_values df_A)) 1)) type"
proof -
  let ?M = "df_values df_A"
  have arr: "is_array (length (df_index df_A)) (length d) ?M"
    using assms(1,2) by (simp add: wf_dataframe_def)
  then have len: "length ?M = length (df_index df_A)"
    by (simp add: is_array_def)
  from arr assms(3) have row: "length (?M ! i) = length d"
    by (rule is_array_row)
  have "dot_mv ?M d ! i = sum_list (map2 (*) (?M ! i) d)"
    using assms(3) len by (simp add: dot_mv_def)
  also have "\<dots> = (\<Sum>j<length d. ?M ! i ! j * d ! j)"
    by (rule sum_list_map2_times [OF row refl])
  finally have entry: "dot_mv ?M d ! i = (\<Sum>j<length d. ?M ! i ! j * d ! j)" .
  have "LeonTradeModel_init df_A (DVec d) type
          = Inr \<lparr> self_df_A = df_A, self_sector_indices = df_index df_A,
                  self_sectors = unique (df_index df_A),
                  self_A = (if type = ''Upstream'' then Some ?M
                            else if type = ''Downstream'' then Some (transpose_values df_A)
                            else None),
                  self_d_base = d, self_x_base = dot_mv ?M d, self_x_out = dot_mv ?M d \<rparr>"
    using assms(2) by (simp add: LeonTradeModel_init_def)
  moreover have "length (dot_mv ?M d) = length (df_index df_A)"
    using len by (simp add: dot_mv_def)
  moreover have "LeonTradeModel_init df_A (DStr ''unit'') type
           = LeonTradeModel_init df_A (DVec (replicate (length ?M) 1)) type"
    by (simp add: LeonTradeModel_init_def)
  ultimately show ?thesis
    using entry by simp
qed

theorem baseline_matrix_as_given_witness:
  "LeonTradeModel_init example_df (DVec [1, 1]) ''Downstream''
     = Inr (example_model)
   \<and> self_x_base example_model = dot_mv (df_values example_df) [1, 1]
   \<and> self_x_base example_model ! 0 = (\<Sum>j<length [1, 1::real]. df_values example_df ! 0 ! j * [1, 1] ! j)"
proof -
  have h1: "wf_dataframe example_df"
    by (simp add: wf_dataframe_def example_df_def is_array_def)
  have h2: "length (df_columns example_df) = length [1, 1::real]"
    by (simp add: example_df_def)
  have h3: "0 < length (df_index example_df)"
    by (simp add: example_df_def)
  have init: "LeonTradeModel_init example_df (DVec [1, 1]) ''Downstream'' = Inr example_model"
    by (simp add: LeonTradeModel_init_def example_df_def example_model_def
          transpose_values_def dot_mv_def)
  show ?thesis
    using baseline_matrix_as_given [OF h1 h2 h3, of "''Downstream''"] init
    by auto
qed

text \<open>
  The sentence of the specification fails here: downstream, the model holds the transposed matrix in \<open>A\<close>,
  whose product with the unit demand is \<open>[0, 1]\<close>, and the baseline output \<open>[1, 0]\<close>.
\<close>

theorem baseline_downstream_counterexample:
  "LeonTradeModel_init example_df (DStr ''unit'') ''Downstream'' = Inr example_model
   \<and> self_A example_model = Some (transpose_values example_df)
   \<and> self_d_base example_model = [1, 1]
   \<and> self_x_base example_model = [1, 0]
   \<and> dot_mv (transpose_values example_df) [1, 1] = [0, 1]"
  by (simp add: LeonTradeModel_init_def example_df_def example_model_def
        transpose_values_def dot_mv_def)

section \<open>The direction of propagation\<close>

text \<open>
  C10. When the constructor returns, the attribute \<open>A\<close> is the matrix for \<open>'Upstream'\<close>,
  its transpose for \<open>'Downstream'\<close>, and unset for every other value of \<open>type\<close>, so that
  reading it raises; the constructor itself returns for such a value whenever it returns
  for \<open>'Upstream'\<close>, with the same baseline output.
\<close>

theorem direction_decides_A:
  assumes "LeonTradeModel_init df_A demand type = Inr self"
  shows "(if type = ''Upstream'' then read_A self = Inr (df_values df_A)
          else if type = ''Downstream'' then read_A self = Inr (transpose_values df_A)
          else self_A self = None \<and> read_A self = Inl AttributeError)
       \<and> (\<exists>self'. LeonTradeModel_init df_A demand ''Upstream'' = Inr self'
              \<and> self_x_base self' = self_x_base self)"
  using assms
  by (auto simp: LeonTradeModel_init_def read_A_def Let_def split: sum.splits if_splits)

theorem direction_decides_A_witness:
  "LeonTradeModel_init example_df (DStr ''unit'') ''Sideways''
     = Inr (example_model \<lparr> self_A := None \<rparr>)
   \<and> self_A (example_model \<lparr> self_A := None \<rparr>) = None
   \<and> read_A (example_model \<lparr> self_A := None \<rparr>) = Inl AttributeError"
proof -
  have h: "LeonTradeModel_init example_df (DStr ''unit'') ''Sideways''
             = Inr (example_model \<lparr> self_A := None \<rparr>)"
    by (simp add: LeonTradeModel_init_def example_df_def example_model_def dot_mv_def)
  show ?thesis
    using direction_decides_A [OF h] h by simp
qed

section \<open>Forcing and dynamics\<close>

lemma map2_map2_same:
  "map2 g xs (map2 h xs f) = map2 (\<lambda>s x. g s (h s x)) xs f"
proof (induction xs arbitrary: f)
  case Nil
  then show ?case by simp
next
  case (Cons a xs)
  then show ?case by (cases f) simp_all
qed

lemma map2_cong_left:
  "(\<And>s x. s \<in> set xs \<Longrightarrow> F s x = G s x) \<Longrightarrow> map2 F xs f = map2 G xs f"
proof (induction xs arbitrary: f)
  case Nil
  then show ?case by simp
next
  case (Cons a xs)
  then show ?case by (cases f) simp_all
qed

lemma series_setitem_known:
  "key \<in> set idx \<Longrightarrow>
   series_setitem (idx, vals) key val
     = Inr (idx, map2 (\<lambda>l x. if l = key then val else x) idx vals)"
  by (simp add: series_setitem_def)

lemma overlay_Nil: "overlay t [] s x = x"
  by (simp add: overlay_def dict_get_def)

lemma overlay_Cons:
  "overlay t ((k, a) # d) s x =
     (if s = k then (if fst a \<le> t \<and> t \<le> fst (snd a) then snd (snd a) else x)
      else overlay t d s x)"
  by (simp add: overlay_def dict_get_def)

lemma overlay_absent: "s \<notin> set (keys d) \<Longrightarrow> overlay t d s x = x"
proof -
  assume "s \<notin> set (keys d)"
  then have "map_of d s = None"
    by (simp add: keys_def map_of_eq_None_iff)
  then show ?thesis by (simp add: overlay_def dict_get_def)
qed

lemma map2_snd: "length f = length xs \<Longrightarrow> map2 (\<lambda>s x. x) xs f = f"
  by (induction xs f rule: list_induct2') simp_all

lemma known_or_idle_subset: "set (keys d) \<subseteq> set sectors \<Longrightarrow> known_or_idle t sectors d"
  by (auto simp: known_or_idle_def keys_def list_all_iff)

lemma forcing_loop_known:
  "distinct (keys d) \<Longrightarrow> known_or_idle t sectors d \<Longrightarrow> length f = length sectors \<Longrightarrow>
   forcing_loop t d (sectors, f) = Inr (sectors, map2 (overlay t d) sectors f)"
proof (induction d arbitrary: f)
  case Nil
  have "map2 (overlay t []) sectors f = map2 (\<lambda>s x. x) sectors f"
    by (rule map2_cong_left) (simp add: overlay_Nil)
  with Nil show ?case by (simp add: map2_snd)
next
  case (Cons p d)
  obtain k a where p: "p = (k, a)" by (cases p)
  from Cons.prems p have k: "k \<in> set sectors \<or> \<not> (fst a \<le> t \<and> t \<le> fst (snd a))"
      "k \<notin> set (keys d)"
    and d: "distinct (keys d)" "known_or_idle t sectors d"
    by (auto simp: keys_def known_or_idle_def)
  show ?case
  proof (cases "fst a \<le> t \<and> t \<le> fst (snd a)")
    case True
    let ?f' = "map2 (\<lambda>l x. if l = k then snd (snd a) else x) sectors f"
    have len: "length ?f' = length sectors" using Cons.prems(3) by simp
    have "forcing_loop t (p # d) (sectors, f) = forcing_loop t d (sectors, ?f')"
      using True k(1) by (simp add: p series_setitem_known)
    also have "\<dots> = Inr (sectors, map2 (overlay t d) sectors ?f')"
      by (rule Cons.IH [OF d len])
    also have "map2 (overlay t d) sectors ?f'
                 = map2 (\<lambda>s x. overlay t d s (if s = k then snd (snd a) else x)) sectors f"
      by (rule map2_map2_same)
    also have "\<dots> = map2 (overlay t (p # d)) sectors f"
      by (rule map2_cong_left) (use True k(2) in \<open>simp add: p overlay_Cons overlay_absent\<close>)
    finally show ?thesis .
  next
    case False
    have "forcing_loop t (p # d) (sectors, f) = forcing_loop t d (sectors, f)"
      using False by (auto simp: p)
    also have "\<dots> = Inr (sectors, map2 (overlay t d) sectors f)"
      by (rule Cons.IH [OF d Cons.prems(3)])
    also have "map2 (overlay t d) sectors f = map2 (overlay t (p # d)) sectors f"
      by (rule map2_cong_left) (use False k(2) in \<open>auto simp: p overlay_Cons overlay_absent\<close>)
    finally show ?thesis .
  qed
qed

lemma map2_replicate_right:
  "map2 F xs (replicate (length xs) c) = map (\<lambda>s. F s c) xs"
  by (induction xs) simp_all

lemma forcing_series_known:
  assumes "distinct (keys d)" "known_or_idle t sectors d" "length sectors = length A"
  shows "forcing_series t A sectors d = Inr (sectors, evaluate d sectors t)"
proof -
  have "forcing_series t A sectors d = forcing_loop t d (sectors, replicate (length sectors) 0)"
    using assms(3) by (simp add: forcing_series_def)
  also have "\<dots> = Inr (sectors, map2 (overlay t d) sectors (replicate (length sectors) 0))"
    by (rule forcing_loop_known) (use assms in simp_all)
  also have "map2 (overlay t d) sectors (replicate (length sectors) 0) = evaluate d sectors t"
    by (simp add: map2_replicate_right evaluate_def overlay_def)
  finally show ?thesis .
qed


lemma dot_mv_sub_eye:
  assumes "is_array n n A" "length y = n"
  shows "dot_mv (mat_sub A (eye n)) y
           = map (\<lambda>i. \<Sum>j<n. (A ! i ! j - (if i = j then 1 else 0)) * y ! j) [0..<n]"
proof (rule nth_equalityI)
  have lenA: "length A = n" using assms(1) by (simp add: is_array_def)
  show "length (dot_mv (mat_sub A (eye n)) y)
          = length (map (\<lambda>i. \<Sum>j<n. (A ! i ! j - (if i = j then 1 else 0)) * y ! j) [0..<n])"
    by (simp add: dot_mv_def mat_sub_def eye_def lenA)
  fix i
  assume "i < length (dot_mv (mat_sub A (eye n)) y)"
  then have i: "i < n"
    by (simp add: dot_mv_def mat_sub_def eye_def lenA)
  have row: "mat_sub A (eye n) ! i = map2 (-) (A ! i) (map (\<lambda>j. if i = j then 1 else 0) [0..<n])"
    using i by (simp add: mat_sub_def eye_def lenA)
  have lenrow: "length (mat_sub A (eye n) ! i) = n"
    using i is_array_row [OF assms(1) i] by (simp add: row)
  have "dot_mv (mat_sub A (eye n)) y ! i = sum_list (map2 (*) (mat_sub A (eye n) ! i) y)"
    using i by (simp add: dot_mv_def mat_sub_def eye_def lenA)
  also have "\<dots> = (\<Sum>j<n. mat_sub A (eye n) ! i ! j * y ! j)"
    by (rule sum_list_map2_times [OF lenrow assms(2)])
  also have "\<dots> = (\<Sum>j<n. (A ! i ! j - (if i = j then 1 else 0)) * y ! j)"
    using is_array_row [OF assms(1) i] by (intro sum.cong) (simp_all add: row)
  finally show "dot_mv (mat_sub A (eye n)) y ! i
      = map (\<lambda>i. \<Sum>j<n. (A ! i ! j - (if i = j then 1 else 0)) * y ! j) [0..<n] ! i"
    using i by simp
qed

lemma vec_add_map_upt:
  "length f = n \<Longrightarrow> vec_add (map g [0..<n]) f = map (\<lambda>i. g i + f ! i) [0..<n]"
  by (rule nth_equalityI) (simp_all add: vec_add_def)


lemma rhs_shock:
  assumes "is_array n n A" "length y = n" "length f = n"
  shows "rhs A y [f]
           = Inr (map (\<lambda>i. (\<Sum>j<n. (A ! i ! j - (if i = j then 1 else 0)) * y ! j) + f ! i)
                    [0..<n])"
proof -
  have lenA: "length A = n" using assms(1) by (simp add: is_array_def)
  note core = dot_mv_sub_eye [OF assms(1,2)]
  show ?thesis
    using assms by (simp add: rhs_def lenA core vec_add_map_upt)
qed







text \<open>
  At \<open>t = 0\<close> the entry of the unused slots is active. Its key, the integer \<open>0\<close>, is no
  label of the index, and the write goes to position \<open>0\<close>: over the forcing of the first
  sector, written before it.
\<close>

lemma unused_slot_at_time_zero:
  "forcing_series 0 [[0, 0], [0, 0]] [Name ''a'', Name ''b'']
       [(Name ''a'', (0, 1 / 2, 3 / 25)), (Name ''b'', (0, 1 / 2, 3 / 25)), (Num 0, (0, 0, 0))]
     = Inr ([Name ''a'', Name ''b''], [0, 3 / 25])"
  by (simp add: forcing_series_def series_setitem_def integer_index_def numeral_2_eq_2)

lemma evaluate_inactive:
  assumes "\<And>k a. (k, a) \<in> set d \<Longrightarrow> snd (snd a) = 0 \<or> \<not> (fst a \<le> t \<and> t \<le> fst (snd a))"
  shows "evaluate d sectors t = replicate (length sectors) 0"
proof -
  have "(case dict_get d s of None \<Rightarrow> 0
         | Some a \<Rightarrow> if fst a \<le> t \<and> t \<le> fst (snd a) then snd (snd a) else 0) = 0" for s
  proof (cases "dict_get d s")
    case None
    then show ?thesis by simp
  next
    case (Some a)
    then have "(s, a) \<in> set d" by (simp add: dict_get_def map_of_SomeD)
    from assms [OF this] Some show ?thesis by auto
  qed
  then show ?thesis
    by (simp add: evaluate_def map_replicate_const)
qed

text \<open>
  With the state at rest and every entry of the shock either of magnitude zero or
  inactive at \<open>t\<close>, the right-hand side is the zero vector: the origin is an equilibrium
  of the unforced dynamics. The trajectory itself is computed by \<open>odeint\<close>, which is
  outside the program.
\<close>

lemma rhs_at_rest:
  assumes "is_array n n A" "length sectors = n"
    and "distinct (keys shock)" "set (keys shock) \<subseteq> set sectors"
    and "\<And>k a. (k, a) \<in> set shock \<Longrightarrow> snd (snd a) = 0 \<or> \<not> (fst a \<le> t \<and> t \<le> fst (snd a))"
  shows "snd (economic_dynamics_ode time_vec (replicate n 0) t A sectors shock)
           = Inr (replicate n 0)"
proof -
  have lenA: "length A = n" using assms(1) by (simp add: is_array_def)
  have ev: "evaluate shock sectors t = replicate n 0"
    using evaluate_inactive [of shock t sectors, OF assms(5)] assms(2) by simp
  have fs: "forcing_series t A sectors shock = Inr (sectors, replicate n 0)"
    using forcing_series_known [OF assms(3) known_or_idle_subset [OF assms(4)], of A t]
      assms(2) lenA ev by simp
  have "rhs A (replicate n 0) [replicate n 0]
          = Inr (map (\<lambda>i. (\<Sum>j<n. (A ! i ! j - (if i = j then 1 else 0)) * replicate n 0 ! j)
                            + replicate n 0 ! i) [0..<n])"
    by (rule rhs_shock [OF assms(1)]) simp_all
  also have "map (\<lambda>i. (\<Sum>j<n. (A ! i ! j - (if i = j then 1 else 0)) * replicate n 0 ! j)
                            + replicate n 0 ! i) [0..<n] = replicate n (0::real)"
    by (intro nth_equalityI) simp_all
  finally show ?thesis
    by (simp add: economic_dynamics_ode_def fs)
qed

section \<open>Loss aggregation\<close>

lemma additive_zero:
  assumes "additive_quadrature simps x"
  shows "simps (replicate (length x) 0) x = 0"
proof -
  let ?z = "replicate (length x) (0::real)"
  have "map2 (+) ?z ?z = ?z"
    by (rule nth_equalityI) simp_all
  moreover have "simps (map2 (+) ?z ?z) x = simps ?z x + simps ?z x"
    by (rule assms [unfolded additive_quadrature_def, rule_format]) simp_all
  ultimately show ?thesis by simp
qed

lemma length_column: "length (column sol n) = length sol"
  by (simp add: column_def)

lemma scalar_loop_sum:
  "length time_vec = length sol \<Longrightarrow>
   scalar_loop simps sol time_vec ns tot
     = Inr (tot + sum_list (map (\<lambda>n. simps (column sol n) time_vec) ns))"
  by (induction ns arbitrary: tot) (simp_all add: simps_call_def length_column)

lemma partial_row_sums:
  assumes "additive_quadrature simps time_vec" "length time_vec = length sol"
  shows "sum_list (map (\<lambda>n. simps (column sol n) time_vec) [0..<k])
           = simps (map (\<lambda>row. \<Sum>n<k. row ! n) sol) time_vec"
proof (induction k)
  case 0
  have "map (\<lambda>row. 0::real) sol = replicate (length time_vec) 0"
    using assms(2) by (simp add: map_replicate_const)
  then show ?case using additive_zero [OF assms(1)] by simp
next
  case (Suc k)
  have "map (\<lambda>row. \<Sum>n<Suc k. row ! n) sol
          = map2 (+) (map (\<lambda>row. \<Sum>n<k. row ! n) sol) (column sol k)"
    by (rule nth_equalityI) (simp_all add: column_def)
  moreover have "simps (map2 (+) (map (\<lambda>row. \<Sum>n<k. row ! n) sol) (column sol k)) time_vec
          = simps (map (\<lambda>row. \<Sum>n<k. row ! n) sol) time_vec + simps (column sol k) time_vec"
    by (rule assms(1) [unfolded additive_quadrature_def, rule_format])
       (simp_all add: assms(2) length_column)
  ultimately show ?case using Suc by simp
qed

lemma row_sums_full:
  assumes "is_array m n sol"
  shows "map (\<lambda>row. \<Sum>j<n. row ! j) sol = map sum_list sol"
proof (rule map_cong [OF refl])
  fix row assume "row \<in> set sol"
  then have "length row = n" using assms by (auto simp: is_array_def list_all_iff)
  then show "(\<Sum>j<n. row ! j) = sum_list row"
    by (simp add: sum_list_sum_nth atLeast0LessThan)
qed

lemma shape1_array: "is_array m n sol \<Longrightarrow> sol \<noteq> [] \<Longrightarrow> shape1 sol = n"
  by (cases sol) (simp_all add: shape1_def is_array_def)

lemma index_of_nth: "distinct xs \<Longrightarrow> i < length xs \<Longrightarrow> index_of xs (xs ! i) = i"
proof (induction xs arbitrary: i)
  case Nil
  then show ?case by simp
next
  case (Cons a xs)
  then show ?case by (cases i) auto
qed

lemma by_sector_loop_result:
  assumes "length time_vec = length sol" "distinct (map fst tot)" "set ns \<subseteq> fst ` set tot"
    "distinct ns"
  shows "by_sector_loop simps sol time_vec sectors ns tot
           = Inr (map (\<lambda>(l, x). if l \<in> set ns
                                  then (l, simps (column sol (index_of sectors l)) time_vec)
                                  else (l, x)) tot)"
  using assms
proof (induction ns arbitrary: tot)
  case Nil
  then show ?case by (simp add: case_prod_unfold)
next
  case (Cons n ns)
  let ?v = "simps (column sol (index_of sectors n)) time_vec"
  let ?tot' = "map (\<lambda>(l, x). if l = n then (l, ?v) else (l, x)) tot"
  have fst': "map fst ?tot' = map fst tot"
    by (induction tot) (auto simp: case_prod_unfold)
  have "by_sector_loop simps sol time_vec sectors (n # ns) tot
          = by_sector_loop simps sol time_vec sectors ns ?tot'"
    using Cons.prems(1) by (simp add: simps_call_def length_column)
  also have "\<dots> = Inr (map (\<lambda>(l, x). if l \<in> set ns
                                  then (l, simps (column sol (index_of sectors l)) time_vec)
                                  else (l, x)) ?tot')"
  proof (rule Cons.IH)
    show "length time_vec = length sol" by (rule Cons.prems(1))
    show "distinct (map fst ?tot')" using Cons.prems(2) by (simp only: fst')
    have "fst ` set ?tot' = fst ` set tot"
      using fst' by (metis set_map)
    then show "set ns \<subseteq> fst ` set ?tot'" using Cons.prems(3) by simp
    show "distinct ns" using Cons.prems(4) by simp
  qed
  also have "map (\<lambda>(l, x). if l \<in> set ns
                                  then (l, simps (column sol (index_of sectors l)) time_vec)
                                  else (l, x)) ?tot'
      = map (\<lambda>(l, x). if l \<in> set (n # ns)
                                  then (l, simps (column sol (index_of sectors l)) time_vec)
                                  else (l, x)) tot"
    by (auto simp: case_prod_unfold)
  finally show ?case .
qed


lemma per_sector_sum:
  assumes "distinct sectors"
  shows "sum_list (map (\<lambda>l. g (index_of sectors l)) sectors)
           = sum_list (map g [0..<length sectors])"
proof -
  have "map (\<lambda>l. g (index_of sectors l)) sectors
          = map (\<lambda>i. g (index_of sectors (sectors ! i))) [0..<length sectors]"
    by (rule nth_equalityI) simp_all
  also have "\<dots> = map g [0..<length sectors]"
    using assms by (simp add: index_of_nth)
  finally show ?thesis by simp
qed

lemma simpson3_additive: "length x = 3 \<Longrightarrow> additive_quadrature simpson3 x"
proof -
  assume x: "length x = 3"
  have "simpson3 (map2 (+) u v) x = simpson3 u x + simpson3 v x"
    if "length u = 3" "length v = 3" for u v
    using that by (simp add: simpson3_def algebra_simps)
  then show ?thesis by (simp add: additive_quadrature_def x)
qed

text \<open>
  C8. For a solution array with at least one row, a time grid with one sample per row
  and a quadrature routine that is additive on that grid, the scalar total loss is the
  quadrature of the column of row sums, and it is the sum of the per-sector figures
  that the same routine gives for the distinct sector labels of the columns.
\<close>

theorem total_out_loss_row_sum:
  assumes "is_array m n sol" "sol \<noteq> []" "length time_vec = m"
    and "length sectors = n" "distinct sectors"
    and "additive_quadrature simps time_vec"
  shows "total_out_loss simps sol time_vec False None
           = Inr (Scalar (simps (map sum_list sol) time_vec))
       \<and> (\<exists>ps. total_out_loss simps sol time_vec True (Some sectors) = Inr (PerSector ps)
              \<and> map fst ps = sectors
              \<and> sum_list (map snd ps) = simps (map sum_list sol) time_vec)"
proof -
  have len: "length time_vec = length sol"
    using assms(1,3) by (simp add: is_array_def)
  have sh: "shape1 sol = n"
    by (rule shape1_array [OF assms(1,2)])
  have cols: "sum_list (map (\<lambda>k. simps (column sol k) time_vec) [0..<n])
                = simps (map sum_list sol) time_vec"
    using partial_row_sums [OF assms(6) len, of n] row_sums_full [OF assms(1)] by simp
  have scalar: "total_out_loss simps sol time_vec False None
                  = Inr (Scalar (simps (map sum_list sol) time_vec))"
    using assms(2) by (simp add: total_out_loss_def sh scalar_loop_sum [OF len] cols)
  let ?ps = "map (\<lambda>l. (l, simps (column sol (index_of sectors l)) time_vec)) sectors"
  have "by_sector_loop simps sol time_vec sectors sectors (map (\<lambda>l. (l, 0)) sectors)
          = Inr (map (\<lambda>(l, x). if l \<in> set sectors
                                  then (l, simps (column sol (index_of sectors l)) time_vec)
                                  else (l, x)) (map (\<lambda>l. (l, 0)) sectors))"
    by (rule by_sector_loop_result) (use assms(5) len in \<open>auto simp: comp_def image_iff\<close>)
  also have "map (\<lambda>(l, x). if l \<in> set sectors
                                  then (l, simps (column sol (index_of sectors l)) time_vec)
                                  else (l, x)) (map (\<lambda>l. (l, 0)) sectors) = ?ps"
    by simp
  finally have loop: "by_sector_loop simps sol time_vec sectors sectors
                        (map (\<lambda>l. (l, 0)) sectors) = Inr ?ps" .
  have per: "total_out_loss simps sol time_vec True (Some sectors) = Inr (PerSector ?ps)"
    using assms(2,4,5) by (simp add: total_out_loss_def sh loop)
  have "sum_list (map snd ?ps)
          = sum_list (map (\<lambda>l. simps (column sol (index_of sectors l)) time_vec) sectors)"
    by (simp add: comp_def)
  also have "\<dots> = sum_list (map (\<lambda>k. simps (column sol k) time_vec) [0..<length sectors])"
    by (rule per_sector_sum [OF assms(5)])
  also have "\<dots> = simps (map sum_list sol) time_vec"
    using cols assms(4) by simp
  finally have "sum_list (map snd ?ps) = simps (map sum_list sol) time_vec" .
  moreover have "map fst ?ps = sectors"
    by (simp add: comp_def)
  ultimately show ?thesis using scalar per by blast
qed

theorem total_out_loss_row_sum_witness:
  "total_out_loss simpson3 [[1, 2], [3, 4], [5, 6]] [0, 1, 2] False None = Inr (Scalar 14)
   \<and> simpson3 (map sum_list [[1, 2], [3, 4], [5, 6]]) [0, 1, 2] = 14
   \<and> total_out_loss simpson3 [[1, 2], [3, 4], [5, 6]] [0, 1, 2] True
        (Some [Name ''a'', Name ''b''])
       = Inr (PerSector [(Name ''a'', 6), (Name ''b'', 8)])"
proof -
  have h1: "is_array 3 2 [[1, 2], [3, 4], [5, 6]]" by (simp add: is_array_def)
  have h2: "[[1, 2], [3, 4], [5, 6::real]] \<noteq> []" by simp
  have h3: "length [0, 1, 2::real] = 3" by simp
  have h4: "length [Name ''a'', Name ''b''] = 2" by simp
  have h5: "distinct [Name ''a'', Name ''b'']" by simp
  have h6: "additive_quadrature simpson3 [0, 1, 2]" by (rule simpson3_additive) simp
  have v: "simpson3 (map sum_list [[1, 2], [3, 4], [5, 6]]) [0, 1, 2] = 14"
    by (simp add: simpson3_def)
  have p: "total_out_loss simpson3 [[1, 2], [3, 4], [5, 6]] [0, 1, 2] True
        (Some [Name ''a'', Name ''b''])
       = Inr (PerSector [(Name ''a'', 6), (Name ''b'', 8)])"
    by (simp add: total_out_loss_def shape1_def simps_call_def column_def simpson3_def)
  show ?thesis
    using total_out_loss_row_sum [OF h1 h2 h3 h4 h5 h6] v p by simp
qed

section \<open>shock\_impulse without overrides\<close>

text \<open>
  C9. Left at its default \<open>None\<close>, the parameter \<open>sectors_n_shocks\<close> is iterated by the
  second loop, which raises \<open>TypeError\<close>: for every model and every general shock the
  call fails, and it returns a dictionary for every dictionary of overrides, the empty
  one included.
\<close>

theorem shock_impulse_None_raises:
  "shock_impulse self None general_shock = Inl TypeError
   \<and> (\<exists>spec. shock_impulse self (Some []) general_shock = Inr spec)
   \<and> (\<exists>spec. shock_impulse self (Some ov) general_shock = Inr spec)"
  by (simp add: shock_impulse_def)


end
